theory Spec2Isabelle
  imports Main "HOL-Library.Monad_Syntax"
begin

section \<open>Values\<close>

text \<open>
  The program handles the values that \<^verbatim>\<open>json.load\<close> returns: \<^verbatim>\<open>None\<close>, booleans,
  numbers, strings, lists and dicts with string keys. A dict is the list of its items;
  \<open>map_of\<close> reads a key. Numbers are the integers: a JSON number with a fraction is not
  represented.

  A Python exception is the value \<open>None\<close> of an option type; the comment of each
  definition names the exception. Output written with \<^verbatim>\<open>print\<close> is not modelled.
\<close>

datatype json =
    JNull
  | JBool bool
  | JInt int
  | JStr string
  | JArr "json list"
  | JObj "(string \<times> json) list"

text \<open>\<^verbatim>\<open>a[k]\<close> for a string \<open>k\<close>: KeyError on a dict without the key, TypeError on
  every value that is not a dict.\<close>

fun subscript :: "json \<Rightarrow> string \<Rightarrow> json option" where
  "subscript (JObj kvs) k = map_of kvs k"
| "subscript _ k = None"

text \<open>\<^verbatim>\<open>d.get(k, default)\<close>: AttributeError on a value that is not a dict.\<close>

fun dict_get :: "json \<Rightarrow> string \<Rightarrow> json \<Rightarrow> json option" where
  "dict_get (JObj kvs) k d = Some (case map_of kvs k of None \<Rightarrow> d | Some v \<Rightarrow> v)"
| "dict_get _ k d = None"

text \<open>Iteration, as a \<^verbatim>\<open>for\<close> clause does it: a list gives its elements, a string its
  characters, a dict its keys; TypeError on the other values.\<close>

fun py_iter :: "json \<Rightarrow> json list option" where
  "py_iter (JArr xs) = Some xs"
| "py_iter (JStr s) = Some (map (\<lambda>c. JStr [c]) s)"
| "py_iter (JObj kvs) = Some (map (\<lambda>kv. JStr (fst kv)) kvs)"
| "py_iter _ = None"

text \<open>Truth value of a value, as \<^verbatim>\<open>not x\<close> and \<^verbatim>\<open>if x\<close> read it.\<close>

fun py_truthy :: "json \<Rightarrow> bool" where
  "py_truthy JNull = False"
| "py_truthy (JBool b) = b"
| "py_truthy (JInt n) = (n \<noteq> 0)"
| "py_truthy (JStr s) = (s \<noteq> [])"
| "py_truthy (JArr xs) = (xs \<noteq> [])"
| "py_truthy (JObj kvs) = (kvs \<noteq> [])"

text \<open>
  A Python set holds hashable values up to \<^verbatim>\<open>==\<close>. Lists and dicts are not hashable, and
  \<^verbatim>\<open>True == 1\<close>, \<^verbatim>\<open>False == 0\<close>. A set is modelled by the set of the keys of its
  elements, where \<open>hash_key\<close> maps equal values to one key.
\<close>

fun py_hashable :: "json \<Rightarrow> bool" where
  "py_hashable (JArr xs) = False"
| "py_hashable (JObj kvs) = False"
| "py_hashable _ = True"

fun hash_key :: "json \<Rightarrow> json" where
  "hash_key (JBool b) = JInt (if b then 1 else 0)"
| "hash_key v = v"

text \<open>\<^verbatim>\<open>x in s\<close> for a set \<open>s\<close>: TypeError when \<open>x\<close> is not hashable.\<close>

definition py_in :: "json \<Rightarrow> json set \<Rightarrow> bool option" where
  "py_in x s = (if py_hashable x then Some (hash_key x \<in> s) else None)"

text \<open>A list comprehension \<^verbatim>\<open>[a for a in xs if c(a)]\<close> whose condition may raise.\<close>

fun filter_raising :: "('a \<Rightarrow> bool option) \<Rightarrow> 'a list \<Rightarrow> 'a list option" where
  "filter_raising c [] = Some []"
| "filter_raising c (x # xs) =
     do { b \<leftarrow> c x;
          ys \<leftarrow> filter_raising c xs;
          Some (if b then x # ys else ys) }"

section \<open>Time\<close>

text \<open>
  A naive \<^verbatim>\<open>datetime\<close> is its number of microseconds since 0001-01-01T00:00:00, and a
  \<^verbatim>\<open>timedelta\<close> a number of microseconds. \<^verbatim>\<open>datetime.fromisoformat\<close> and
  \<^verbatim>\<open>isoformat\<close> belong to the standard library; the functions below take them as
  parameters: \<open>fromiso s\<close> is \<open>None\<close> where the library raises ValueError, and a
  datetime that is naive or carries a time zone otherwise.
\<close>

datatype datetime = Naive int | Aware

definition MAX_AGE_HOURS :: int where
  "MAX_AGE_HOURS = 24"

text \<open>\<^verbatim>\<open>timedelta(hours=MAX_AGE_HOURS)\<close>\<close>

definition age_limit :: int where
  "age_limit = MAX_AGE_HOURS * 3600 * 1000000"

text \<open>\<^verbatim>\<open>datetime.fromisoformat(v)\<close>: TypeError when \<open>v\<close> is not a string.\<close>

fun py_fromisoformat :: "(string \<Rightarrow> datetime option) \<Rightarrow> json \<Rightarrow> datetime option" where
  "py_fromisoformat fromiso (JStr s) = fromiso s"
| "py_fromisoformat fromiso _ = None"

text \<open>\<^verbatim>\<open>current_time - d\<close> for the naive \<^verbatim>\<open>datetime.now()\<close>: TypeError when \<open>d\<close>
  carries a time zone.\<close>

fun time_since :: "int \<Rightarrow> datetime \<Rightarrow> int option" where
  "time_since now (Naive t) = Some (now - t)"
| "time_since now Aware = None"

section \<open>Cache management\<close>

text \<open>
  The state of \<^verbatim>\<open>CACHE_FILE\<close>: it does not exist; it exists and \<^verbatim>\<open>open\<close> raises; it
  opens and \<^verbatim>\<open>json.load\<close> raises; \<^verbatim>\<open>json.load\<close> returns a value. For the values
  above, \<^verbatim>\<open>json.load\<close> returns what \<^verbatim>\<open>json.dump\<close> wrote.
\<close>

datatype cache_file = Absent | Unreadable | Malformed | Loaded json

text \<open>The condition of the comprehension in \<^verbatim>\<open>read_cache\<close>; \<^verbatim>\<open>and\<close> reads the feed only
  when the age test holds.\<close>

definition cache_valid ::
  "(string \<Rightarrow> datetime option) \<Rightarrow> int \<Rightarrow> json set \<Rightarrow> json \<Rightarrow> bool option" where
  "cache_valid fromiso current_time current_feed_names a =
     do { ts \<leftarrow> subscript a ''timestamp'';
          d \<leftarrow> py_fromisoformat fromiso ts;
          age \<leftarrow> time_since current_time d;
          if age \<le> age_limit
          then do { f \<leftarrow> subscript a ''feed''; py_in f current_feed_names }
          else Some False }"

text \<open>The body of the \<^verbatim>\<open>try\<close> block of \<^verbatim>\<open>read_cache\<close>, after \<^verbatim>\<open>json.load\<close>.\<close>

definition read_cache_try ::
  "(string \<Rightarrow> datetime option) \<Rightarrow> int \<Rightarrow> json set \<Rightarrow> json \<Rightarrow> json list option" where
  "read_cache_try fromiso current_time current_feed_names cache_data =
     do { cached_articles \<leftarrow> dict_get cache_data ''articles'' (JArr []);
          xs \<leftarrow> py_iter cached_articles;
          filter_raising (cache_valid fromiso current_time current_feed_names) xs }"

definition read_cache ::
  "(string \<Rightarrow> datetime option) \<Rightarrow> int \<Rightarrow> json set \<Rightarrow> cache_file \<Rightarrow> json list" where
  "read_cache fromiso current_time current_feed_names file =
     (case file of
        Absent \<Rightarrow> []
      | Unreadable \<Rightarrow> []
      | Malformed \<Rightarrow> []
      | Loaded cache_data \<Rightarrow>
          (case read_cache_try fromiso current_time current_feed_names cache_data of
             None \<Rightarrow> []
           | Some valid_articles \<Rightarrow> valid_articles))"

text \<open>
  What the file system does at one call of \<^verbatim>\<open>write_cache\<close>: every step succeeds;
  \<^verbatim>\<open>os.makedirs\<close> raises (outside the \<^verbatim>\<open>try\<close>, so the caller sees it); \<^verbatim>\<open>open\<close>
  raises and the file stays as it was; \<^verbatim>\<open>json.dump\<close> raises and leaves a truncated file.
\<close>

datatype io_outcome = IoOk | MkdirFails | OpenFails | DumpFails

definition write_cache ::
  "(int \<Rightarrow> string) \<Rightarrow> int \<Rightarrow> io_outcome \<Rightarrow> json list \<Rightarrow> cache_file \<Rightarrow> cache_file option" where
  "write_cache isoformat now io articles file =
     (case io of
        MkdirFails \<Rightarrow> None
      | OpenFails \<Rightarrow> Some file
      | DumpFails \<Rightarrow> Some Malformed
      | IoOk \<Rightarrow>
          Some (Loaded (JObj [(''timestamp'', JStr (isoformat now)),
                              (''articles'', JArr articles)])))"

section \<open>Feed fetching\<close>

text \<open>
  An entry of the parsed feed: \<open>published_parsed\<close> is \<open>None\<close> when the entry has no such
  key, and the two other fields are what \<^verbatim>\<open>entry.get\<close> finds. The conversion
  \<^verbatim>\<open>datetime.fromtimestamp(time.mktime(x))\<close> is a parameter \<open>to_datetime\<close>, with \<open>None\<close>
  where it raises.
\<close>

record 'ts entry =
  published_parsed :: "'ts option"
  entry_title :: "string option"
  entry_link :: "string option"

record 'ts parsed_feed =
  bozo :: bool
  entries :: "'ts entry list"

text \<open>
  The network and the parser, as \<^verbatim>\<open>fetch_feed\<close> uses them: \<open>requests_get url\<close> is \<open>None\<close>
  when \<^verbatim>\<open>requests.get\<close> raises, \<open>raise_for_status r\<close> holds when the call of that name
  raises, and \<open>feedparser_parse r\<close> is \<open>None\<close> when \<^verbatim>\<open>feedparser.parse\<close> raises.
\<close>

record ('r, 'ts) network =
  requests_get :: "json \<Rightarrow> 'r option"
  raise_for_status :: "'r \<Rightarrow> bool"
  feedparser_parse :: "'r \<Rightarrow> 'ts parsed_feed option"

text \<open>The loop over \<^verbatim>\<open>parsed_feed.entries\<close>; the last argument is \<^verbatim>\<open>new_articles\<close>.\<close>

fun normalize_entries ::
  "('ts \<Rightarrow> int option) \<Rightarrow> (int \<Rightarrow> string) \<Rightarrow> int \<Rightarrow> json \<Rightarrow> 'ts entry list \<Rightarrow> json list
     \<Rightarrow> json list" where
  "normalize_entries to_datetime isoformat current_time name [] new_articles = new_articles"
| "normalize_entries to_datetime isoformat current_time name (e # es) new_articles =
     (case published_parsed e of
        None \<Rightarrow> normalize_entries to_datetime isoformat current_time name es new_articles
      | Some x \<Rightarrow>
          (case to_datetime x of
             None \<Rightarrow> normalize_entries to_datetime isoformat current_time name es new_articles
           | Some published_time \<Rightarrow>
               if current_time - published_time > age_limit
               then normalize_entries to_datetime isoformat current_time name es new_articles
               else normalize_entries to_datetime isoformat current_time name es
                      (new_articles @
                        [JObj [(''feed'', name),
                               (''title'', JStr (case entry_title e of None \<Rightarrow> ''No title''
                                                 | Some t \<Rightarrow> t)),
                               (''link'', JStr (case entry_link e of None \<Rightarrow> ''No link''
                                                | Some l \<Rightarrow> l)),
                               (''timestamp'', JStr (isoformat published_time))]])))"

text \<open>The \<^verbatim>\<open>try\<close> block of \<^verbatim>\<open>fetch_feed\<close>: \<open>None\<close> when one of its three calls raises.\<close>

definition fetch_try :: "('r, 'ts) network \<Rightarrow> json \<Rightarrow> 'ts parsed_feed option" where
  "fetch_try net url =
     do { response \<leftarrow> requests_get net url;
          if raise_for_status net response then None
          else feedparser_parse net response }"

text \<open>
  \<^verbatim>\<open>fetch_feed\<close> returns the articles; the second component lists the URLs it has
  requested. \<^verbatim>\<open>feed.get\<close> raises AttributeError on a feed that is not a dict, outside the
  \<^verbatim>\<open>try\<close>: the result is \<open>None\<close> then.
\<close>

definition fetch_feed ::
  "('r, 'ts) network \<Rightarrow> ('ts \<Rightarrow> int option) \<Rightarrow> (int \<Rightarrow> string) \<Rightarrow> int \<Rightarrow> json
     \<Rightarrow> (json list \<times> json list) option" where
  "fetch_feed net to_datetime isoformat current_time feed =
     do { name \<leftarrow> dict_get feed ''name'' JNull;
          url \<leftarrow> dict_get feed ''url'' JNull;
          if \<not> py_truthy name \<or> \<not> py_truthy url then Some ([], [])
          else
            (case fetch_try net url of
               None \<Rightarrow> Some ([], [url])
             | Some parsed \<Rightarrow>
                 if bozo parsed then Some ([], [url])
                 else Some (normalize_entries to_datetime isoformat current_time name
                              (entries parsed) [], [url])) }"

section \<open>The merge and the cache update of main\<close>

text \<open>The first loop of \<^verbatim>\<open>main\<close>, over \<^verbatim>\<open>new_articles\<close>; the state is
  \<^verbatim>\<open>(seen_links, merged_articles)\<close>. A KeyError or TypeError ends \<^verbatim>\<open>main\<close>.\<close>

fun add_new_articles ::
  "json list \<Rightarrow> json set \<times> json list \<Rightarrow> (json set \<times> json list) option" where
  "add_new_articles [] st = Some st"
| "add_new_articles (a # as) (seen_links, merged_articles) =
     do { l \<leftarrow> subscript a ''link'';
          seen \<leftarrow> py_in l seen_links;
          if \<not> seen \<and> l \<noteq> JStr ''No link''
          then add_new_articles as (insert (hash_key l) seen_links, merged_articles @ [a])
          else add_new_articles as (seen_links, merged_articles) }"

text \<open>The second loop, over \<^verbatim>\<open>cached_articles\<close>; \<^verbatim>\<open>and\<close> reads the feed only when the
  two tests on the link hold.\<close>

fun add_cached_articles ::
  "json set \<Rightarrow> json list \<Rightarrow> json set \<times> json list \<Rightarrow> (json set \<times> json list) option" where
  "add_cached_articles current_feed_names [] st = Some st"
| "add_cached_articles current_feed_names (a # as) (seen_links, merged_articles) =
     do { l \<leftarrow> subscript a ''link'';
          seen \<leftarrow> py_in l seen_links;
          if \<not> seen \<and> l \<noteq> JStr ''No link''
          then do { f \<leftarrow> subscript a ''feed'';
                    known \<leftarrow> py_in f current_feed_names;
                    if known
                    then add_cached_articles current_feed_names as
                           (insert (hash_key l) seen_links, merged_articles @ [a])
                    else add_cached_articles current_feed_names as
                           (seen_links, merged_articles) }
          else add_cached_articles current_feed_names as (seen_links, merged_articles) }"

definition main_merge :: "json set \<Rightarrow> json list \<Rightarrow> json list \<Rightarrow> json list option" where
  "main_merge current_feed_names new_articles cached_articles =
     do { st \<leftarrow> add_new_articles new_articles ({}, []);
          st' \<leftarrow> add_cached_articles current_feed_names cached_articles st;
          Some (snd st') }"

text \<open>
  The cache update of \<^verbatim>\<open>main\<close>: \<^verbatim>\<open>write_cache\<close>, then \<^verbatim>\<open>write_cache\<close> again when
  \<^verbatim>\<open>merged_articles\<close> is not empty, else \<^verbatim>\<open>os.remove\<close> when the file exists. The two
  writes read the clock at \<open>t1\<close> and \<open>t2\<close> and meet the outcomes \<open>io1\<close> and \<open>io2\<close>;
  \<open>remove_ok\<close> is false when \<^verbatim>\<open>os.remove\<close> raises, which ends \<^verbatim>\<open>main\<close>.
\<close>

definition main_commit ::
  "(int \<Rightarrow> string) \<Rightarrow> int \<Rightarrow> io_outcome \<Rightarrow> int \<Rightarrow> io_outcome \<Rightarrow> bool \<Rightarrow> json list \<Rightarrow> cache_file
     \<Rightarrow> cache_file option" where
  "main_commit isoformat t1 io1 t2 io2 remove_ok merged_articles file =
     do { file1 \<leftarrow> write_cache isoformat t1 io1 merged_articles file;
          if merged_articles \<noteq> [] then write_cache isoformat t2 io2 merged_articles file1
          else if file1 \<noteq> Absent then (if remove_ok then Some Absent else None)
          else Some file1 }"

text \<open>
  The commit step as the specification words it: \<open>write\<close> persists the snapshot of the
  articles with the time of writing, \<open>clear\<close> removes the persisted snapshot, and the
  merge engine calls \<open>write\<close> when the merged list is not empty, else \<open>clear\<close>.
\<close>

definition spec_write :: "(int \<Rightarrow> string) \<Rightarrow> int \<Rightarrow> json list \<Rightarrow> cache_file" where
  "spec_write isoformat now articles =
     Loaded (JObj [(''timestamp'', JStr (isoformat now)), (''articles'', JArr articles)])"

definition spec_clear :: cache_file where
  "spec_clear = Absent"

definition spec_commit :: "(int \<Rightarrow> string) \<Rightarrow> int \<Rightarrow> json list \<Rightarrow> cache_file" where
  "spec_commit isoformat now merged_articles =
     (if merged_articles \<noteq> [] then spec_write isoformat now merged_articles else spec_clear)"

section \<open>Properties of articles\<close>

text \<open>\<^verbatim>\<open>a['link'] == l\<close>, false when the article has no link.\<close>

definition has_link :: "json \<Rightarrow> json \<Rightarrow> bool" where
  "has_link l a =
     (case subscript a ''link'' of None \<Rightarrow> False | Some l' \<Rightarrow> hash_key l' = hash_key l)"

text \<open>The filter of \<^verbatim>\<open>read_cache\<close> cannot read the timestamp of \<open>a\<close>: the key is missing,
  the value is not a string, or the string is not the ISO format of a naive datetime.\<close>

definition timestamp_unreadable :: "(string \<Rightarrow> datetime option) \<Rightarrow> json \<Rightarrow> bool" where
  "timestamp_unreadable fromiso a =
     (case subscript a ''timestamp'' of
        Some (JStr s) \<Rightarrow> (case fromiso s of Some (Naive t) \<Rightarrow> False | _ \<Rightarrow> True)
      | _ \<Rightarrow> True)"

text \<open>The timestamp of \<open>a\<close> is readable and at most the freshness window before \<open>now\<close>.\<close>

definition in_window :: "(string \<Rightarrow> datetime option) \<Rightarrow> int \<Rightarrow> json \<Rightarrow> bool" where
  "in_window fromiso now a =
     (case subscript a ''timestamp'' of
        Some (JStr s) \<Rightarrow> (case fromiso s of Some (Naive t) \<Rightarrow> now - t \<le> age_limit | _ \<Rightarrow> False)
      | _ \<Rightarrow> False)"

text \<open>The feed of \<open>a\<close> cannot be looked up in a set: the key is missing or the value is not
  hashable.\<close>

definition feed_unreadable :: "json \<Rightarrow> bool" where
  "feed_unreadable a =
     (case subscript a ''feed'' of None \<Rightarrow> True | Some f \<Rightarrow> \<not> py_hashable f)"

text \<open>The feed of \<open>a\<close> is one of the current feed names.\<close>

definition feed_known :: "json set \<Rightarrow> json \<Rightarrow> bool" where
  "feed_known names a =
     (case subscript a ''feed'' of None \<Rightarrow> False
      | Some f \<Rightarrow> py_hashable f \<and> hash_key f \<in> names)"

definition string_field :: "json \<Rightarrow> string \<Rightarrow> bool" where
  "string_field a k = (case subscript a k of Some (JStr s) \<Rightarrow> True | _ \<Rightarrow> False)"

text \<open>An article of the data model: a dict with the four fields, all strings, whose
  timestamp reads as a naive datetime.\<close>

definition is_article :: "(string \<Rightarrow> datetime option) \<Rightarrow> json \<Rightarrow> bool" where
  "is_article fromiso a \<longleftrightarrow>
     string_field a ''feed'' \<and> string_field a ''title'' \<and> string_field a ''link'' \<and>
     \<not> timestamp_unreadable fromiso a"

text \<open>The publish time of an entry, as the loop of \<^verbatim>\<open>fetch_feed\<close> obtains it: \<open>None\<close> when
  the entry has no \<^verbatim>\<open>published_parsed\<close> or the conversion raises.\<close>

definition entry_time :: "('ts \<Rightarrow> int option) \<Rightarrow> 'ts entry \<Rightarrow> int option" where
  "entry_time to_datetime e =
     (case published_parsed e of None \<Rightarrow> None | Some x \<Rightarrow> to_datetime x)"

text \<open>The article that the loop builds from an entry published at \<open>t\<close>.\<close>

definition entry_article :: "(int \<Rightarrow> string) \<Rightarrow> json \<Rightarrow> 'ts entry \<Rightarrow> int \<Rightarrow> json" where
  "entry_article isoformat name e t =
     JObj [(''feed'', name),
           (''title'', JStr (case entry_title e of None \<Rightarrow> ''No title'' | Some x \<Rightarrow> x)),
           (''link'', JStr (case entry_link e of None \<Rightarrow> ''No link'' | Some x \<Rightarrow> x)),
           (''timestamp'', JStr (isoformat t))]"

text \<open>The entry has a publish time, and that time is at most the freshness window before
  \<open>now\<close>.\<close>

definition entry_kept :: "('ts \<Rightarrow> int option) \<Rightarrow> int \<Rightarrow> 'ts entry \<Rightarrow> bool" where
  "entry_kept to_datetime now e =
     (case entry_time to_datetime e of None \<Rightarrow> False | Some t \<Rightarrow> now - t \<le> age_limit)"

text \<open>The request for \<open>url\<close> fails: \<^verbatim>\<open>requests.get\<close> raises, the status check raises, the parser
  raises, or the parser reports the document as malformed.\<close>

definition fetch_failure :: "('r, 'ts) network \<Rightarrow> json \<Rightarrow> bool" where
  "fetch_failure net url =
     (case requests_get net url of
        None \<Rightarrow> True
      | Some r \<Rightarrow>
          raise_for_status net r \<or>
          (case feedparser_parse net r of None \<Rightarrow> True | Some p \<Rightarrow> bozo p))"

section \<open>Sample data\<close>

text \<open>The values of \<^verbatim>\<open>datetime.fromisoformat\<close> at the strings of the examples below (every
  other string counts as unreadable there), and the clock at 2024-03-10T12:00:00.\<close>

definition sample_fromisoformat :: "string \<Rightarrow> datetime option" where
  "sample_fromisoformat =
     map_of [(''2024-03-10T12:00:00'', Naive 63845668800000000),
             (''2024-03-10T11:00:00'', Naive 63845665200000000),
             (''2024-03-10T13:00:00'', Naive 63845672400000000),
             (''2024-03-08T12:00:00'', Naive 63845496000000000),
             (''2024-03-10T12:00:00+00:00'', Aware)]"

definition sample_now :: int where
  "sample_now = 63845668800000000"

definition article :: "string \<Rightarrow> string \<Rightarrow> string \<Rightarrow> string \<Rightarrow> json" where
  "article f t l s =
     JObj [(''feed'', JStr f), (''title'', JStr t), (''link'', JStr l), (''timestamp'', JStr s)]"

text \<open>The values of \<^verbatim>\<open>isoformat\<close> at the datetimes of the examples.\<close>

definition sample_isoformat :: "int \<Rightarrow> string" where
  "sample_isoformat t =
     (case map_of [(63845668800000000, ''2024-03-10T12:00:00''),
                   (63845665200000000, ''2024-03-10T11:00:00''),
                   (63845672400000000, ''2024-03-10T13:00:00''),
                   (63845496000000000, ''2024-03-08T12:00:00'')] t of
        None \<Rightarrow> [] | Some s \<Rightarrow> s)"

text \<open>In the examples an entry carries, in place of its \<^verbatim>\<open>published_parsed\<close>, the datetime that
  the conversion returns, or \<open>None\<close> where the conversion raises.\<close>

definition sample_to_datetime :: "int option \<Rightarrow> int option" where
  "sample_to_datetime x = x"

text \<open>A network for the examples: a response is its status code, the status check raises on
  the codes from 400 to 599, and the parser accepts the response with code 200 only.\<close>

definition sample_net :: "(nat, int) network" where
  "sample_net =
     \<lparr> requests_get = map_of [(JStr ''http://a/feed'', 200), (JStr ''http://a/gone'', 404),
                              (JStr ''http://a/page'', 201)],
       raise_for_status = (\<lambda>r. 400 \<le> r \<and> r < 600),
       feedparser_parse = (\<lambda>r. if r = 200
          then Some \<lparr> bozo = False,
                      entries = [\<lparr> published_parsed = Some 63845665200000000,
                                   entry_title = Some ''T1'', entry_link = Some ''http://a/x'' \<rparr>] \<rparr>
          else Some \<lparr> bozo = True, entries = [] \<rparr>) \<rparr>"

lemmas sample_defs =
  sample_fromisoformat_def sample_now_def sample_isoformat_def article_def
  age_limit_def MAX_AGE_HOURS_def

section \<open>The cache filter\<close>

lemma filter_raising_Some:
  "filter_raising c xs = Some ys \<Longrightarrow> ys = filter (\<lambda>x. c x = Some True) xs \<and> (\<forall>x\<in>set xs. c x \<noteq> None)"
proof (induction xs arbitrary: ys)
  case Nil
  then show ?case by simp
next
  case (Cons x xs)
  then show ?case by (auto split: bind_splits if_splits)
qed

lemma filter_raising_None:
  "x \<in> set xs \<Longrightarrow> c x = None \<Longrightarrow> filter_raising c xs = None"
  by (induction xs) (auto split: bind_splits)

lemma filter_raising_total:
  "\<forall>x\<in>set xs. c x \<noteq> None \<Longrightarrow> filter_raising c xs = Some (filter (\<lambda>x. c x = Some True) xs)"
  by (induction xs) (auto split: bind_splits)

text \<open>The condition of \<^verbatim>\<open>read_cache\<close> at one record: it raises on an unreadable timestamp, and
  on an unreadable feed when the timestamp is within the window.\<close>

lemma cache_valid_eq:
  "cache_valid fromiso now names a =
     (if timestamp_unreadable fromiso a then None
      else if in_window fromiso now a
           then (if feed_unreadable a then None else Some (feed_known names a))
           else Some False)"
proof (cases "subscript a ''timestamp''")
  case None
  then show ?thesis by (simp add: cache_valid_def timestamp_unreadable_def)
next
  case (Some v)
  show ?thesis
  proof (cases v)
    case (JStr s)
    show ?thesis
    proof (cases "fromiso s")
      case None
      with Some JStr show ?thesis by (simp add: cache_valid_def timestamp_unreadable_def)
    next
      case (Some d)
      show ?thesis
      proof (cases d)
        case (Naive t)
        with Some \<open>subscript a ''timestamp'' = Some v\<close> JStr show ?thesis
          by (cases "subscript a ''feed''")
             (simp_all add: cache_valid_def timestamp_unreadable_def in_window_def
                feed_unreadable_def feed_known_def py_in_def)
      next
        case Aware
        with Some \<open>subscript a ''timestamp'' = Some v\<close> JStr show ?thesis
          by (simp add: cache_valid_def timestamp_unreadable_def)
      qed
    qed
  qed (use Some in \<open>simp_all add: cache_valid_def timestamp_unreadable_def\<close>)
qed

lemma is_article_readable:
  "is_article fromiso a \<Longrightarrow> \<not> timestamp_unreadable fromiso a \<and> \<not> feed_unreadable a"
  by (auto simp: is_article_def string_field_def feed_unreadable_def split: option.splits json.splits)

lemma read_cache_Loaded_cases:
  "read_cache fromiso now names (Loaded j) = [] \<or>
   (\<exists>kvs xs. j = JObj kvs \<and> py_iter (case map_of kvs ''articles'' of None \<Rightarrow> JArr [] | Some v \<Rightarrow> v) = Some xs \<and>
      read_cache fromiso now names (Loaded j) = filter (\<lambda>a. cache_valid fromiso now names a = Some True) xs)"
  by (cases j) (auto simp: read_cache_def read_cache_try_def split: option.splits bind_splits dest: filter_raising_Some)

lemma read_cache_snapshot:
  assumes "\<forall>a\<in>set xs. cache_valid fromiso now names a \<noteq> None"
  shows "read_cache fromiso now names
           (Loaded (JObj [(''timestamp'', JStr w), (''articles'', JArr xs)]))
         = filter (\<lambda>a. cache_valid fromiso now names a = Some True) xs"
  using filter_raising_total [OF assms]
  by (simp add: read_cache_def read_cache_try_def)

section \<open>The merge loops\<close>

lemma hash_key_No_link: "hash_key l = JStr ''No link'' \<longleftrightarrow> l = JStr ''No link''"
  by (cases l) simp_all

lemma has_link_placeholder:
  "has_link (JStr ''No link'') a \<longleftrightarrow> subscript a ''link'' = Some (JStr ''No link'')"
  by (cases "subscript a ''link''") (simp_all add: has_link_def hash_key_No_link)

lemma find_filter: "filter P xs = y # ys \<Longrightarrow> find P xs = Some y"
  by (induction xs) (auto split: if_splits)

lemma add_new_articles_Cons:
  assumes "add_new_articles (a # as) (seen, merged) = Some r"
  obtains l' where "subscript a ''link'' = Some l'" and "py_hashable l'"
    and "hash_key l' \<notin> seen \<and> l' \<noteq> JStr ''No link'' \<Longrightarrow>
           add_new_articles as (insert (hash_key l') seen, merged @ [a]) = Some r"
    and "\<not> (hash_key l' \<notin> seen \<and> l' \<noteq> JStr ''No link'') \<Longrightarrow>
           add_new_articles as (seen, merged) = Some r"
proof -
  from assms obtain l' where l': "subscript a ''link'' = Some l'"
    by (cases "subscript a ''link''") simp_all
  from assms l' have h: "py_hashable l'"
    by (cases "py_hashable l'") (simp_all add: py_in_def)
  from assms l' h show thesis
    by (intro that [of l']) (simp_all add: py_in_def split: if_splits)
qed

lemma add_cached_articles_Cons:
  assumes "add_cached_articles names (a # as) (seen, merged) = Some r"
  obtains l' where "subscript a ''link'' = Some l'" and "py_hashable l'"
    and "hash_key l' \<notin> seen \<and> l' \<noteq> JStr ''No link'' \<Longrightarrow> feed_known names a \<Longrightarrow>
           add_cached_articles names as (insert (hash_key l') seen, merged @ [a]) = Some r"
    and "\<not> (hash_key l' \<notin> seen \<and> l' \<noteq> JStr ''No link'' \<and> feed_known names a) \<Longrightarrow>
           add_cached_articles names as (seen, merged) = Some r"
proof -
  from assms obtain l' where l': "subscript a ''link'' = Some l'"
    by (cases "subscript a ''link''") simp_all
  from assms l' have h: "py_hashable l'"
    by (cases "py_hashable l'") (simp_all add: py_in_def)
  show thesis
  proof (cases "hash_key l' \<notin> seen \<and> l' \<noteq> JStr ''No link''")
    case False
    with assms l' h have "add_cached_articles names as (seen, merged) = Some r"
      by (simp add: py_in_def split: if_splits)
    with False l' h show thesis by (intro that [of l']) simp_all
  next
    case True
    with assms l' h obtain f where f: "subscript a ''feed'' = Some f"
      by (cases "subscript a ''feed''") (simp_all add: py_in_def)
    from assms l' h True f have hf: "py_hashable f"
      by (cases "py_hashable f") (simp_all add: py_in_def)
    from f hf have known: "feed_known names a \<longleftrightarrow> hash_key f \<in> names"
      by (simp add: feed_known_def)
    from assms l' h True f hf known show thesis
      by (intro that [of l']) (simp_all add: py_in_def split: if_splits)
  qed
qed

text \<open>
  What each loop adds under one link \<open>l\<close> other than the placeholder: nothing when the link
  has been seen, else the first article of the list with that link (and, in the second
  loop, with a known feed). Neither loop adds an article with the placeholder link.
\<close>

lemma add_new_articles_by_link:
  assumes "add_new_articles as (seen, merged) = Some (seen', merged')"
    and "l \<noteq> JStr ''No link''"
  shows "filter (has_link l) merged' =
           filter (has_link l) merged @
             (if hash_key l \<in> seen then [] else take 1 (filter (has_link l) as))
         \<and> (hash_key l \<in> seen' \<longleftrightarrow> hash_key l \<in> seen \<or> (\<exists>a\<in>set as. has_link l a))"
  using assms(1)
proof (induction as arbitrary: seen merged)
  case Nil
  then show ?case by simp
next
  case (Cons a as)
  from Cons.prems obtain l' where l': "subscript a ''link'' = Some l'"
    and hl: "py_hashable l'"
    and adm: "hash_key l' \<notin> seen \<and> l' \<noteq> JStr ''No link'' \<Longrightarrow>
           add_new_articles as (insert (hash_key l') seen, merged @ [a]) = Some (seen', merged')"
    and skip: "\<not> (hash_key l' \<notin> seen \<and> l' \<noteq> JStr ''No link'') \<Longrightarrow>
           add_new_articles as (seen, merged) = Some (seen', merged')"
    by (rule add_new_articles_Cons) blast
  from l' have ha: "has_link l a \<longleftrightarrow> hash_key l' = hash_key l"
    by (simp add: has_link_def)
  show ?case
  proof (cases "hash_key l' \<notin> seen \<and> l' \<noteq> JStr ''No link''")
    case True
    note IH = Cons.IH [OF adm [OF True]]
    show ?thesis
    proof (cases "has_link l a")
      case True
      with ha \<open>hash_key l' \<notin> seen \<and> l' \<noteq> JStr ''No link''\<close>
      have "hash_key l \<notin> seen" "hash_key l \<in> insert (hash_key l') seen" by simp_all
      with IH True show ?thesis by simp
    next
      case False
      with ha have "hash_key l \<noteq> hash_key l'" by auto
      with IH False show ?thesis by simp
    qed
  next
    case False
    note IH = Cons.IH [OF skip [OF False]]
    have "has_link l a \<Longrightarrow> hash_key l \<in> seen"
    proof -
      assume "has_link l a"
      with ha have eq: "hash_key l' = hash_key l" by simp
      with assms(2) hash_key_No_link [of l] hash_key_No_link [of l']
      have "l' \<noteq> JStr ''No link''" by auto
      with False eq show "hash_key l \<in> seen" by auto
    qed
    with IH show ?thesis by (cases "has_link l a") simp_all
  qed
qed

lemma add_new_articles_No_link:
  assumes "add_new_articles as (seen, merged) = Some (seen', merged')"
  shows "filter (has_link (JStr ''No link'')) merged' = filter (has_link (JStr ''No link'')) merged"
  using assms
proof (induction as arbitrary: seen merged)
  case Nil
  then show ?case by simp
next
  case (Cons a as)
  from Cons.prems obtain l' where l': "subscript a ''link'' = Some l'"
    and hl: "py_hashable l'"
    and adm: "hash_key l' \<notin> seen \<and> l' \<noteq> JStr ''No link'' \<Longrightarrow>
           add_new_articles as (insert (hash_key l') seen, merged @ [a]) = Some (seen', merged')"
    and skip: "\<not> (hash_key l' \<notin> seen \<and> l' \<noteq> JStr ''No link'') \<Longrightarrow>
           add_new_articles as (seen, merged) = Some (seen', merged')"
    by (rule add_new_articles_Cons) blast
  from l' have ha: "has_link (JStr ''No link'') a \<longleftrightarrow> l' = JStr ''No link''"
    by (simp add: has_link_def hash_key_No_link)
  show ?case
  proof (cases "hash_key l' \<notin> seen \<and> l' \<noteq> JStr ''No link''")
    case True
    with ha Cons.IH [OF adm [OF True]] show ?thesis by simp
  next
    case False
    with Cons.IH [OF skip [OF False]] show ?thesis by simp
  qed
qed

lemma add_cached_articles_by_link:
  assumes "add_cached_articles names as (seen, merged) = Some (seen', merged')"
    and "l \<noteq> JStr ''No link''"
  shows "filter (has_link l) merged' =
           filter (has_link l) merged @
             (if hash_key l \<in> seen then []
              else take 1 (filter (\<lambda>a. has_link l a \<and> feed_known names a) as))"
  using assms(1)
proof (induction as arbitrary: seen merged)
  case Nil
  then show ?case by simp
next
  case (Cons a as)
  from Cons.prems obtain l' where l': "subscript a ''link'' = Some l'"
    and hl: "py_hashable l'"
    and adm: "hash_key l' \<notin> seen \<and> l' \<noteq> JStr ''No link'' \<Longrightarrow> feed_known names a \<Longrightarrow>
           add_cached_articles names as (insert (hash_key l') seen, merged @ [a])
             = Some (seen', merged')"
    and skip: "\<not> (hash_key l' \<notin> seen \<and> l' \<noteq> JStr ''No link'' \<and> feed_known names a) \<Longrightarrow>
           add_cached_articles names as (seen, merged) = Some (seen', merged')"
    by (rule add_cached_articles_Cons) blast
  from l' have ha: "has_link l a \<longleftrightarrow> hash_key l' = hash_key l"
    by (simp add: has_link_def)
  show ?case
  proof (cases "hash_key l' \<notin> seen \<and> l' \<noteq> JStr ''No link'' \<and> feed_known names a")
    case True
    then have fresh: "hash_key l' \<notin> seen \<and> l' \<noteq> JStr ''No link''" and known: "feed_known names a"
      by simp_all
    note IH = Cons.IH [OF adm [OF fresh known]]
    show ?thesis
    proof (cases "has_link l a")
      case True
      with ha fresh
      have "hash_key l \<notin> seen" "hash_key l \<in> insert (hash_key l') seen" by simp_all
      with IH True known show ?thesis by simp
    next
      case False
      with ha have "hash_key l \<in> insert (hash_key l') seen \<longleftrightarrow> hash_key l \<in> seen" by auto
      with IH False show ?thesis by simp
    qed
  next
    case False
    note IH = Cons.IH [OF skip [OF False]]
    have "has_link l a \<Longrightarrow> feed_known names a \<Longrightarrow> hash_key l \<in> seen"
    proof -
      assume "has_link l a" and known: "feed_known names a"
      with ha have eq: "hash_key l' = hash_key l" by simp
      with assms(2) hash_key_No_link [of l] hash_key_No_link [of l']
      have "l' \<noteq> JStr ''No link''" by auto
      with False eq known show "hash_key l \<in> seen" by auto
    qed
    with IH show ?thesis by (cases "has_link l a \<and> feed_known names a") auto
  qed
qed

lemma add_cached_articles_No_link:
  assumes "add_cached_articles names as (seen, merged) = Some (seen', merged')"
  shows "filter (has_link (JStr ''No link'')) merged' = filter (has_link (JStr ''No link'')) merged"
  using assms
proof (induction as arbitrary: seen merged)
  case Nil
  then show ?case by simp
next
  case (Cons a as)
  from Cons.prems obtain l' where l': "subscript a ''link'' = Some l'"
    and hl: "py_hashable l'"
    and adm: "hash_key l' \<notin> seen \<and> l' \<noteq> JStr ''No link'' \<Longrightarrow> feed_known names a \<Longrightarrow>
           add_cached_articles names as (insert (hash_key l') seen, merged @ [a])
             = Some (seen', merged')"
    and skip: "\<not> (hash_key l' \<notin> seen \<and> l' \<noteq> JStr ''No link'' \<and> feed_known names a) \<Longrightarrow>
           add_cached_articles names as (seen, merged) = Some (seen', merged')"
    by (rule add_cached_articles_Cons) blast
  from l' have ha: "has_link (JStr ''No link'') a \<longleftrightarrow> l' = JStr ''No link''"
    by (simp add: has_link_def hash_key_No_link)
  show ?case
  proof (cases "hash_key l' \<notin> seen \<and> l' \<noteq> JStr ''No link'' \<and> feed_known names a")
    case True
    then have fresh: "hash_key l' \<notin> seen \<and> l' \<noteq> JStr ''No link''" and known: "feed_known names a"
      by simp_all
    with ha Cons.IH [OF adm [OF fresh known]] show ?thesis by simp
  next
    case False
    with Cons.IH [OF skip [OF False]] show ?thesis by simp
  qed
qed

lemma main_merge_by_link:
  assumes "main_merge names new cached = Some merged"
  shows "filter (has_link l) merged =
           (if l = JStr ''No link'' then []
            else if \<exists>a\<in>set new. has_link l a then take 1 (filter (has_link l) new)
            else take 1 (filter (\<lambda>a. has_link l a \<and> feed_known names a) cached))"
proof -
  from assms obtain st1 st2 where
    "add_new_articles new ({}, []) = Some st1" and
    "add_cached_articles names cached st1 = Some st2" and "merged = snd st2"
    by (auto simp: main_merge_def bind_eq_Some_conv)
  then obtain seen1 merged1 seen2 where
    one: "add_new_articles new ({}, []) = Some (seen1, merged1)" and
    two: "add_cached_articles names cached (seen1, merged1) = Some (seen2, merged)"
    by (cases st1, cases st2) simp
  show ?thesis
  proof (cases "l = JStr ''No link''")
    case True
    with add_new_articles_No_link [OF one] add_cached_articles_No_link [OF two]
    show ?thesis by simp
  next
    case False
    from add_new_articles_by_link [OF one False]
    have m1: "filter (has_link l) merged1 = take 1 (filter (has_link l) new)"
      and s1: "hash_key l \<in> seen1 \<longleftrightarrow> (\<exists>a\<in>set new. has_link l a)"
      by simp_all
    have e: "\<not> (\<exists>a\<in>set new. has_link l a) \<Longrightarrow> filter (has_link l) new = []"
      by (simp add: filter_empty_conv)
    from add_cached_articles_by_link [OF two False]
    have "filter (has_link l) merged =
           filter (has_link l) merged1 @
             (if hash_key l \<in> seen1 then []
              else take 1 (filter (\<lambda>a. has_link l a \<and> feed_known names a) cached))" .
    with m1 s1 e False show ?thesis
      by (cases "\<exists>a\<in>set new. has_link l a") simp_all
  qed
qed

text \<open>On articles of the data model the merge raises no error.\<close>

lemma string_field_hashable:
  "string_field a k \<Longrightarrow> \<exists>v. subscript a k = Some v \<and> py_hashable v"
  by (auto simp: string_field_def split: option.splits json.splits)

lemma add_new_articles_total:
  "\<forall>a\<in>set as. string_field a ''link'' \<Longrightarrow> \<exists>r. add_new_articles as st = Some r"
proof (induction as arbitrary: st)
  case Nil
  show ?case by simp
next
  case (Cons a as)
  from Cons.prems obtain v where v: "subscript a ''link'' = Some v" "py_hashable v"
    using string_field_hashable [of a "''link''"] by auto
  obtain seen merged where st: "st = (seen, merged)" by (cases st)
  from Cons.prems have rest: "\<forall>a\<in>set as. string_field a ''link''" by simp
  from Cons.IH [OF rest, of "(insert (hash_key v) seen, merged @ [a])"]
       Cons.IH [OF rest, of "(seen, merged)"] v st
  show ?case by (simp add: py_in_def)
qed

lemma add_cached_articles_total:
  "\<forall>a\<in>set as. string_field a ''link'' \<and> string_field a ''feed'' \<Longrightarrow>
     \<exists>r. add_cached_articles names as st = Some r"
proof (induction as arbitrary: st)
  case Nil
  show ?case by simp
next
  case (Cons a as)
  from Cons.prems obtain v where v: "subscript a ''link'' = Some v" "py_hashable v"
    using string_field_hashable [of a "''link''"] by auto
  from Cons.prems obtain f where f: "subscript a ''feed'' = Some f" "py_hashable f"
    using string_field_hashable [of a "''feed''"] by auto
  obtain seen merged where st: "st = (seen, merged)" by (cases st)
  from Cons.prems have rest: "\<forall>a\<in>set as. string_field a ''link'' \<and> string_field a ''feed''"
    by simp
  from Cons.IH [OF rest, of "(insert (hash_key v) seen, merged @ [a])"]
       Cons.IH [OF rest, of "(seen, merged)"] v f st
  show ?case by (simp add: py_in_def)
qed

lemma main_merge_total:
  assumes "\<forall>a\<in>set new. is_article fromiso a" and "\<forall>a\<in>set cached. is_article fromiso a"
  shows "\<exists>merged. main_merge names new cached = Some merged"
proof -
  from assms(1) have "\<forall>a\<in>set new. string_field a ''link''" by (simp add: is_article_def)
  then obtain st where one: "add_new_articles new ({}, []) = Some st"
    using add_new_articles_total by blast
  from assms(2) have "\<forall>a\<in>set cached. string_field a ''link'' \<and> string_field a ''feed''"
    by (simp add: is_article_def)
  then obtain st' where "add_cached_articles names cached st = Some st'"
    using add_cached_articles_total by blast
  with one show ?thesis by (simp add: main_merge_def)
qed

section \<open>The normalizer loop\<close>

lemma normalize_entries_concat:
  "normalize_entries to_datetime isoformat now name es acc =
     acc @ concat (map (\<lambda>e. case entry_time to_datetime e of
                              None \<Rightarrow> []
                            | Some t \<Rightarrow> if now - t \<le> age_limit
                                        then [entry_article isoformat name e t] else []) es)"
proof (induction es arbitrary: acc)
  case Nil
  show ?case by simp
next
  case (Cons e es)
  show ?case
  proof (cases "published_parsed e")
    case None
    then show ?thesis by (simp add: Cons.IH entry_time_def)
  next
    case (Some x)
    show ?thesis
    proof (cases "to_datetime x")
      case None
      with Some show ?thesis by (simp add: Cons.IH entry_time_def)
    next
      case t: (Some t)
      with Some show ?thesis
        by (simp add: Cons.IH entry_time_def entry_article_def)
    qed
  qed
qed

lemma entry_contribution:
  "a \<in> set (case entry_time to_datetime e of
              None \<Rightarrow> []
            | Some t \<Rightarrow> if now - t \<le> age_limit
                        then [entry_article isoformat name e t] else [])
   \<longleftrightarrow> (\<exists>t. entry_time to_datetime e = Some t \<and> now - t \<le> age_limit
            \<and> a = entry_article isoformat name e t)"
  by (cases "entry_time to_datetime e") auto

section \<open>Claims on the merge\<close>

text \<open>
  C1. For every pair of lists \<^verbatim>\<open>new_articles\<close> and \<^verbatim>\<open>cached_articles\<close> on which the merge
  of \<^verbatim>\<open>main\<close> returns, every link other than the placeholder \<^verbatim>\<open>'No link'\<close> is the link of at
  most one article of \<^verbatim>\<open>merged_articles\<close>.
\<close>

theorem merge_links_unique:
  assumes "main_merge names new cached = Some merged"
    and "l \<noteq> JStr ''No link''"
  shows "length (filter (has_link l) merged) \<le> 1"
  by (simp add: main_merge_by_link [OF assms(1)])

text \<open>Three fresh and two cached articles, two of the fresh and one of the cached under one
  link: the merge keeps three articles, one of them under that link.\<close>

theorem merge_links_unique_witness:
  "main_merge {JStr ''A''}
     [article ''A'' ''T1'' ''http://a/x'' ''2024-03-10T12:00:00'',
      article ''A'' ''T2'' ''http://a/x'' ''2024-03-10T12:00:00'',
      article ''A'' ''T3'' ''http://a/y'' ''2024-03-10T12:00:00'']
     [article ''A'' ''T0'' ''http://a/x'' ''2024-03-10T11:00:00'',
      article ''A'' ''T4'' ''http://a/z'' ''2024-03-10T11:00:00'']
   = Some [article ''A'' ''T1'' ''http://a/x'' ''2024-03-10T12:00:00'',
           article ''A'' ''T3'' ''http://a/y'' ''2024-03-10T12:00:00'',
           article ''A'' ''T4'' ''http://a/z'' ''2024-03-10T11:00:00'']
   \<and> JStr ''http://a/x'' \<noteq> JStr ''No link''
   \<and> length (filter (has_link (JStr ''http://a/x''))
        [article ''A'' ''T1'' ''http://a/x'' ''2024-03-10T12:00:00'',
         article ''A'' ''T3'' ''http://a/y'' ''2024-03-10T12:00:00'',
         article ''A'' ''T4'' ''http://a/z'' ''2024-03-10T11:00:00'']) \<le> 1"
proof -
  have m: "main_merge {JStr ''A''}
     [article ''A'' ''T1'' ''http://a/x'' ''2024-03-10T12:00:00'',
      article ''A'' ''T2'' ''http://a/x'' ''2024-03-10T12:00:00'',
      article ''A'' ''T3'' ''http://a/y'' ''2024-03-10T12:00:00'']
     [article ''A'' ''T0'' ''http://a/x'' ''2024-03-10T11:00:00'',
      article ''A'' ''T4'' ''http://a/z'' ''2024-03-10T11:00:00'']
   = Some [article ''A'' ''T1'' ''http://a/x'' ''2024-03-10T12:00:00'',
           article ''A'' ''T3'' ''http://a/y'' ''2024-03-10T12:00:00'',
           article ''A'' ''T4'' ''http://a/z'' ''2024-03-10T11:00:00'']"
    by (simp add: main_merge_def article_def py_in_def)
  have n: "JStr ''http://a/x'' \<noteq> JStr ''No link''" by simp
  from merge_links_unique [OF m n] m n show ?thesis by blast
qed

text \<open>
  C2. When a link other than the placeholder is the link of a fresh article and of a cached
  article, the merged list holds exactly one article under that link, and it is the fresh
  one: the first article of \<^verbatim>\<open>new_articles\<close> with that link, with all its fields.
\<close>

theorem merge_fresh_wins:
  assumes "main_merge names new cached = Some merged"
    and "l \<noteq> JStr ''No link''"
    and "a \<in> set new" and "has_link l a"
    and "c \<in> set cached" and "has_link l c"
  shows "\<exists>a'. find (has_link l) new = Some a' \<and> filter (has_link l) merged = [a']"
proof -
  from assms(3,4) have "filter (has_link l) new \<noteq> []"
    by (auto simp: filter_empty_conv)
  then obtain a' rest where f: "filter (has_link l) new = a' # rest"
    by (cases "filter (has_link l) new") auto
  from assms(3,4) have "\<exists>a\<in>set new. has_link l a" by blast
  with main_merge_by_link [OF assms(1), of l] assms(2) f
  have "filter (has_link l) merged = [a']" by simp
  with find_filter [OF f] show ?thesis by blast
qed

text \<open>The scenario of the specification: the fresh article with title T1 replaces the cached
  one with title T0 under the same link.\<close>

theorem merge_fresh_wins_witness:
  "main_merge {JStr ''A''}
     [article ''A'' ''T1'' ''http://a/x'' ''2024-03-10T12:00:00'']
     [article ''A'' ''T0'' ''http://a/x'' ''2024-03-10T11:00:00'']
   = Some [article ''A'' ''T1'' ''http://a/x'' ''2024-03-10T12:00:00'']
   \<and> (\<exists>a'. find (has_link (JStr ''http://a/x''))
              [article ''A'' ''T1'' ''http://a/x'' ''2024-03-10T12:00:00''] = Some a'
        \<and> filter (has_link (JStr ''http://a/x''))
              [article ''A'' ''T1'' ''http://a/x'' ''2024-03-10T12:00:00''] = [a'])"
proof -
  let ?fresh = "article ''A'' ''T1'' ''http://a/x'' ''2024-03-10T12:00:00''"
  let ?old = "article ''A'' ''T0'' ''http://a/x'' ''2024-03-10T11:00:00''"
  have m: "main_merge {JStr ''A''} [?fresh] [?old] = Some [?fresh]"
    by (simp add: main_merge_def article_def py_in_def)
  have n: "JStr ''http://a/x'' \<noteq> JStr ''No link''" by simp
  have a: "?fresh \<in> set [?fresh]" by simp
  have c: "?old \<in> set [?old]" by simp
  have ha: "has_link (JStr ''http://a/x'') ?fresh" by (simp add: has_link_def article_def)
  have hc: "has_link (JStr ''http://a/x'') ?old" by (simp add: has_link_def article_def)
  from merge_fresh_wins [OF m n a ha c hc] m show ?thesis by blast
qed

text \<open>
  C3, as amended. The claim is that every article with the placeholder link is retained.
  Both loops test \<^verbatim>\<open>a['link'] != 'No link'\<close> before they append, so the opposite holds:
  no article of \<^verbatim>\<open>merged_articles\<close> has the placeholder link.
\<close>

theorem merge_drops_placeholder:
  assumes "main_merge names new cached = Some merged"
    and "a \<in> set merged"
  shows "subscript a ''link'' \<noteq> Some (JStr ''No link'')"
proof
  assume "subscript a ''link'' = Some (JStr ''No link'')"
  then have "has_link (JStr ''No link'') a" by (simp add: has_link_placeholder)
  with assms(2) have "a \<in> set (filter (has_link (JStr ''No link'')) merged)" by simp
  with main_merge_by_link [OF assms(1), of "JStr ''No link''"] show False by simp
qed

theorem merge_drops_placeholder_witness:
  "main_merge {JStr ''A''}
     [article ''A'' ''T1'' ''No link'' ''2024-03-10T12:00:00'',
      article ''A'' ''T3'' ''http://a/y'' ''2024-03-10T12:00:00'']
     [article ''A'' ''T0'' ''No link'' ''2024-03-10T11:00:00'']
   = Some [article ''A'' ''T3'' ''http://a/y'' ''2024-03-10T12:00:00'']
   \<and> article ''A'' ''T3'' ''http://a/y'' ''2024-03-10T12:00:00''
        \<in> set [article ''A'' ''T3'' ''http://a/y'' ''2024-03-10T12:00:00'']
   \<and> subscript (article ''A'' ''T3'' ''http://a/y'' ''2024-03-10T12:00:00'') ''link''
        \<noteq> Some (JStr ''No link'')"
proof -
  let ?y = "article ''A'' ''T3'' ''http://a/y'' ''2024-03-10T12:00:00''"
  have m: "main_merge {JStr ''A''}
     [article ''A'' ''T1'' ''No link'' ''2024-03-10T12:00:00'', ?y]
     [article ''A'' ''T0'' ''No link'' ''2024-03-10T11:00:00'']
   = Some [?y]"
    by (simp add: main_merge_def article_def py_in_def)
  have a: "?y \<in> set [?y]" by simp
  from merge_drops_placeholder [OF m a] m a show ?thesis by blast
qed

text \<open>A fresh and a cached article with the placeholder link, the cached one of a current
  feed: the merged list is empty, neither is retained.\<close>

theorem merge_placeholder_counterexample:
  "main_merge {JStr ''A''}
     [article ''A'' ''T1'' ''No link'' ''2024-03-10T12:00:00'']
     [article ''A'' ''T0'' ''No link'' ''2024-03-10T11:00:00'']
   = Some []"
  by (simp add: main_merge_def article_def py_in_def)

section \<open>Claims on fetching\<close>

text \<open>
  C4, as amended. The claim bounds the publish time of a kept entry by \<open>now\<close> from above. The
  loop tests \<^verbatim>\<open>current_time - published_time > age_limit\<close> only, so it keeps exactly the
  entries that carry a publish time \<open>t\<close> with \<open>now - t \<le> age_limit\<close>, one article for each
  and in the order of the entries, and skips every entry without a readable publish time;
  an entry published after \<open>now\<close> is kept.
\<close>

theorem normalizer_keeps:
  "normalize_entries to_datetime isoformat now name es [] =
     map (\<lambda>e. entry_article isoformat name e (the (entry_time to_datetime e)))
         (filter (entry_kept to_datetime now) es)
   \<and> length (normalize_entries to_datetime isoformat now name es [])
     = length (filter (entry_kept to_datetime now) es)
   \<and> (a \<in> set (normalize_entries to_datetime isoformat now name es []) \<longleftrightarrow>
        (\<exists>e\<in>set es. \<exists>t. entry_time to_datetime e = Some t \<and> now - t \<le> age_limit
            \<and> a = entry_article isoformat name e t))"
proof (intro conjI)
  show "normalize_entries to_datetime isoformat now name es [] =
     map (\<lambda>e. entry_article isoformat name e (the (entry_time to_datetime e)))
         (filter (entry_kept to_datetime now) es)"
    unfolding normalize_entries_concat
    by (induction es) (simp_all add: entry_kept_def split: option.splits)
  show "length (normalize_entries to_datetime isoformat now name es [])
          = length (filter (entry_kept to_datetime now) es)"
    unfolding normalize_entries_concat
    by (induction es) (simp_all add: entry_kept_def split: option.splits)
  show "a \<in> set (normalize_entries to_datetime isoformat now name es []) \<longleftrightarrow>
        (\<exists>e\<in>set es. \<exists>t. entry_time to_datetime e = Some t \<and> now - t \<le> age_limit
            \<and> a = entry_article isoformat name e t)"
  proof -
    let ?f = "\<lambda>e. case entry_time to_datetime e of
                     None \<Rightarrow> []
                   | Some t \<Rightarrow> if now - t \<le> age_limit
                               then [entry_article isoformat name e t] else []"
    have "a \<in> set (concat (map ?f es)) \<longleftrightarrow> (\<exists>e\<in>set es. a \<in> set (?f e))"
      by auto
    then show ?thesis
      by (simp only: normalize_entries_concat entry_contribution append_Nil)
  qed
qed

text \<open>Five entries: no publish time, an unreadable one, one of two days ago, one of an hour
  ago without title and link, and one of this moment. The last two are kept, in their
  order.\<close>

theorem normalizer_keeps_witness:
  "normalize_entries sample_to_datetime sample_isoformat sample_now (JStr ''A'')
     [\<lparr> published_parsed = None, entry_title = Some ''T1'', entry_link = Some ''http://a/1'' \<rparr>,
      \<lparr> published_parsed = Some None, entry_title = Some ''T2'', entry_link = Some ''http://a/2'' \<rparr>,
      \<lparr> published_parsed = Some (Some 63845496000000000), entry_title = Some ''T3'',
         entry_link = Some ''http://a/3'' \<rparr>,
      \<lparr> published_parsed = Some (Some 63845665200000000), entry_title = None,
         entry_link = None \<rparr>,
      \<lparr> published_parsed = Some (Some 63845668800000000), entry_title = Some ''T5'',
         entry_link = Some ''http://a/5'' \<rparr>] []
   = [article ''A'' ''No title'' ''No link'' ''2024-03-10T11:00:00'',
      article ''A'' ''T5'' ''http://a/5'' ''2024-03-10T12:00:00'']
   \<and> map (\<lambda>e. entry_article sample_isoformat (JStr ''A'') e
                 (the (entry_time sample_to_datetime e)))
        (filter (entry_kept sample_to_datetime sample_now)
     [\<lparr> published_parsed = None, entry_title = Some ''T1'', entry_link = Some ''http://a/1'' \<rparr>,
      \<lparr> published_parsed = Some None, entry_title = Some ''T2'', entry_link = Some ''http://a/2'' \<rparr>,
      \<lparr> published_parsed = Some (Some 63845496000000000), entry_title = Some ''T3'',
         entry_link = Some ''http://a/3'' \<rparr>,
      \<lparr> published_parsed = Some (Some 63845665200000000), entry_title = None,
         entry_link = None \<rparr>,
      \<lparr> published_parsed = Some (Some 63845668800000000), entry_title = Some ''T5'',
         entry_link = Some ''http://a/5'' \<rparr>])
   = [article ''A'' ''No title'' ''No link'' ''2024-03-10T11:00:00'',
      article ''A'' ''T5'' ''http://a/5'' ''2024-03-10T12:00:00'']"
proof -
  let ?es = "[\<lparr> published_parsed = None, entry_title = Some ''T1'', entry_link = Some ''http://a/1'' \<rparr>,
      \<lparr> published_parsed = Some None, entry_title = Some ''T2'', entry_link = Some ''http://a/2'' \<rparr>,
      \<lparr> published_parsed = Some (Some 63845496000000000), entry_title = Some ''T3'',
         entry_link = Some ''http://a/3'' \<rparr>,
      \<lparr> published_parsed = Some (Some 63845665200000000), entry_title = None,
         entry_link = None \<rparr>,
      \<lparr> published_parsed = Some (Some 63845668800000000), entry_title = Some ''T5'',
         entry_link = Some ''http://a/5'' \<rparr>]"
  have e: "normalize_entries sample_to_datetime sample_isoformat sample_now (JStr ''A'') ?es []
             = [article ''A'' ''No title'' ''No link'' ''2024-03-10T11:00:00'',
                article ''A'' ''T5'' ''http://a/5'' ''2024-03-10T12:00:00'']"
    by (simp add: sample_to_datetime_def sample_defs)
  from normalizer_keeps [of sample_to_datetime sample_isoformat sample_now "JStr ''A''" ?es JNull]
  have q: "normalize_entries sample_to_datetime sample_isoformat sample_now (JStr ''A'') ?es []
             = map (\<lambda>e. entry_article sample_isoformat (JStr ''A'') e
                            (the (entry_time sample_to_datetime e)))
                   (filter (entry_kept sample_to_datetime sample_now) ?es)"
    by (rule conjunct1)
  from e q show ?thesis by (simp only:)
qed

text \<open>An entry published one hour after \<open>now\<close> is kept.\<close>

theorem normalizer_future_counterexample:
  "normalize_entries sample_to_datetime sample_isoformat sample_now (JStr ''A'')
     [\<lparr> published_parsed = Some (Some 63845672400000000),
        entry_title = Some ''T1'', entry_link = Some ''http://a/x'' \<rparr>] []
   = [article ''A'' ''T1'' ''http://a/x'' ''2024-03-10T13:00:00'']
   \<and> sample_now < 63845672400000000"
  by (simp add: sample_to_datetime_def sample_defs)

text \<open>
  C8. For a feed that is a dict, \<^verbatim>\<open>fetch_feed\<close> raises no error; it returns the empty list
  without any request when the name or the url is missing or empty; and it returns the
  empty list when the request raises, the status check raises, the parser raises or the
  parser reports the document as malformed.
\<close>

theorem fetch_feed_failures:
  assumes "dict_get feed ''name'' JNull = Some name"
    and "dict_get feed ''url'' JNull = Some url"
  shows "(\<exists>r. fetch_feed net to_datetime isoformat now feed = Some r)
    \<and> (\<not> py_truthy name \<or> \<not> py_truthy url \<longrightarrow>
          fetch_feed net to_datetime isoformat now feed = Some ([], []))
    \<and> (py_truthy name \<and> py_truthy url \<and> fetch_failure net url \<longrightarrow>
          fetch_feed net to_datetime isoformat now feed = Some ([], [url]))"
  using assms
  by (auto simp: fetch_feed_def fetch_failure_def fetch_try_def split: option.splits)

text \<open>A feed without url, a response with status 404, a host that cannot be reached and a
  document that the parser rejects.\<close>

theorem fetch_feed_failures_witness:
  "fetch_feed sample_net Some sample_isoformat sample_now (JObj [(''name'', JStr ''A'')])
     = Some ([], [])
   \<and> fetch_feed sample_net Some sample_isoformat sample_now
       (JObj [(''name'', JStr ''A''), (''url'', JStr ''http://a/gone'')])
     = Some ([], [JStr ''http://a/gone''])
   \<and> fetch_feed sample_net Some sample_isoformat sample_now
       (JObj [(''name'', JStr ''A''), (''url'', JStr ''http://unreachable/'')])
     = Some ([], [JStr ''http://unreachable/''])
   \<and> fetch_feed sample_net Some sample_isoformat sample_now
       (JObj [(''name'', JStr ''A''), (''url'', JStr ''http://a/page'')])
     = Some ([], [JStr ''http://a/page''])"
proof -
  have n: "dict_get (JObj [(''name'', JStr ''A'')]) ''name'' JNull = Some (JStr ''A'')"
          "dict_get (JObj [(''name'', JStr ''A'')]) ''url'' JNull = Some JNull"
    by simp_all
  have g: "dict_get (JObj [(''name'', JStr ''A''), (''url'', JStr ''http://a/gone'')]) ''name'' JNull
             = Some (JStr ''A'')"
          "dict_get (JObj [(''name'', JStr ''A''), (''url'', JStr ''http://a/gone'')]) ''url'' JNull
             = Some (JStr ''http://a/gone'')"
    by simp_all
  have u: "dict_get (JObj [(''name'', JStr ''A''), (''url'', JStr ''http://unreachable/'')]) ''name'' JNull
             = Some (JStr ''A'')"
          "dict_get (JObj [(''name'', JStr ''A''), (''url'', JStr ''http://unreachable/'')]) ''url'' JNull
             = Some (JStr ''http://unreachable/'')"
    by simp_all
  have h: "dict_get (JObj [(''name'', JStr ''A''), (''url'', JStr ''http://a/page'')]) ''name'' JNull
             = Some (JStr ''A'')"
          "dict_get (JObj [(''name'', JStr ''A''), (''url'', JStr ''http://a/page'')]) ''url'' JNull
             = Some (JStr ''http://a/page'')"
    by simp_all
  have fg: "fetch_failure sample_net (JStr ''http://a/gone'')"
    and fu: "fetch_failure sample_net (JStr ''http://unreachable/'')"
    and fh: "fetch_failure sample_net (JStr ''http://a/page'')"
    by (simp_all add: fetch_failure_def sample_net_def)
  from fetch_feed_failures [OF n, of sample_net Some sample_isoformat sample_now]
       fetch_feed_failures [OF g, of sample_net Some sample_isoformat sample_now]
       fetch_feed_failures [OF u, of sample_net Some sample_isoformat sample_now]
       fetch_feed_failures [OF h, of sample_net Some sample_isoformat sample_now]
       fg fu fh
  show ?thesis by simp
qed

section \<open>Claims on the cache\<close>

text \<open>
  C5. When \<^verbatim>\<open>os.makedirs\<close> does not raise in the first write, and the second write and the
  removal succeed, the cache update of \<^verbatim>\<open>main\<close> leaves the file as the commit step of the
  specification does: the snapshot of \<^verbatim>\<open>merged_articles\<close> when the list is not empty, no
  file when it is empty.
\<close>

theorem main_commit_refines:
  assumes "io1 \<noteq> MkdirFails"
  shows "main_commit isoformat t1 io1 t2 IoOk True merged file
           = Some (spec_commit isoformat t2 merged)
    \<and> (merged \<noteq> [] \<longrightarrow>
          main_commit isoformat t1 io1 t2 IoOk True merged file
            = Some (Loaded (JObj [(''timestamp'', JStr (isoformat t2)),
                                  (''articles'', JArr merged)])))
    \<and> (merged = [] \<longrightarrow>
          main_commit isoformat t1 io1 t2 IoOk True merged file = Some Absent)"
  using assms
  by (cases io1)
     (simp_all add: main_commit_def write_cache_def spec_commit_def spec_write_def spec_clear_def)

theorem main_commit_refines_witness:
  "IoOk \<noteq> MkdirFails
   \<and> main_commit sample_isoformat sample_now IoOk sample_now IoOk True
        [article ''A'' ''T1'' ''http://a/x'' ''2024-03-10T12:00:00''] Absent
     = Some (Loaded (JObj [(''timestamp'', JStr ''2024-03-10T12:00:00''),
          (''articles'', JArr [article ''A'' ''T1'' ''http://a/x'' ''2024-03-10T12:00:00''])]))
   \<and> main_commit sample_isoformat sample_now IoOk sample_now IoOk True []
        (Loaded (JObj [(''timestamp'', JStr ''2024-03-10T11:00:00''),
          (''articles'', JArr [article ''A'' ''T0'' ''http://a/x'' ''2024-03-08T12:00:00''])]))
     = Some Absent
   \<and> spec_commit sample_isoformat sample_now [] = Absent"
proof -
  have h: "IoOk \<noteq> MkdirFails" by simp
  have i: "sample_isoformat sample_now = ''2024-03-10T12:00:00''"
    by (simp add: sample_defs)
  from main_commit_refines [OF h, of sample_isoformat sample_now sample_now
         "[article ''A'' ''T1'' ''http://a/x'' ''2024-03-10T12:00:00'']" Absent]
       main_commit_refines [OF h, of sample_isoformat sample_now sample_now "[]"
         "Loaded (JObj [(''timestamp'', JStr ''2024-03-10T11:00:00''),
          (''articles'', JArr [article ''A'' ''T0'' ''http://a/x'' ''2024-03-08T12:00:00''])])"]
       i
  show ?thesis by (simp add: spec_commit_def spec_clear_def spec_write_def)
qed

text \<open>
  C6. Every article that \<^verbatim>\<open>read_cache\<close> returns has a timestamp at most the freshness window
  before \<open>now\<close> and a feed in the set of current feed names.
\<close>

theorem read_cache_fresh_and_known:
  assumes "a \<in> set (read_cache fromiso now names file)"
  shows "in_window fromiso now a \<and> feed_known names a"
proof (cases "file")
  case Absent
  with assms show ?thesis by (simp add: read_cache_def)
next
  case Unreadable
  with assms show ?thesis by (simp add: read_cache_def)
next
  case Malformed
  with assms show ?thesis by (simp add: read_cache_def)
next
  case (Loaded j)
  with assms read_cache_Loaded_cases [of fromiso now names j]
  have "cache_valid fromiso now names a = Some True" by auto
  then show ?thesis by (simp add: cache_valid_eq split: if_splits)
qed

text \<open>A snapshot of three articles: one of feed A from an hour ago, one of feed B, which is
  not a current feed, and one of feed A from two days ago. The first alone is returned.\<close>

theorem read_cache_fresh_and_known_witness:
  "article ''A'' ''T0'' ''http://a/x'' ''2024-03-10T11:00:00''
     \<in> set (read_cache sample_fromisoformat sample_now {JStr ''A''}
         (Loaded (JObj [(''timestamp'', JStr ''2024-03-10T11:00:00''),
            (''articles'', JArr [
               article ''A'' ''T0'' ''http://a/x'' ''2024-03-10T11:00:00'',
               article ''B'' ''T2'' ''http://b/y'' ''2024-03-10T11:00:00'',
               article ''A'' ''T3'' ''http://a/z'' ''2024-03-08T12:00:00''])])))
   \<and> in_window sample_fromisoformat sample_now
        (article ''A'' ''T0'' ''http://a/x'' ''2024-03-10T11:00:00'')
   \<and> feed_known {JStr ''A''} (article ''A'' ''T0'' ''http://a/x'' ''2024-03-10T11:00:00'')
   \<and> read_cache sample_fromisoformat sample_now {JStr ''A''}
         (Loaded (JObj [(''timestamp'', JStr ''2024-03-10T11:00:00''),
            (''articles'', JArr [
               article ''A'' ''T0'' ''http://a/x'' ''2024-03-10T11:00:00'',
               article ''B'' ''T2'' ''http://b/y'' ''2024-03-10T11:00:00'',
               article ''A'' ''T3'' ''http://a/z'' ''2024-03-08T12:00:00''])]))
       = [article ''A'' ''T0'' ''http://a/x'' ''2024-03-10T11:00:00'']"
proof -
  let ?file = "Loaded (JObj [(''timestamp'', JStr ''2024-03-10T11:00:00''),
            (''articles'', JArr [
               article ''A'' ''T0'' ''http://a/x'' ''2024-03-10T11:00:00'',
               article ''B'' ''T2'' ''http://b/y'' ''2024-03-10T11:00:00'',
               article ''A'' ''T3'' ''http://a/z'' ''2024-03-08T12:00:00''])])"
  have r: "read_cache sample_fromisoformat sample_now {JStr ''A''} ?file
             = [article ''A'' ''T0'' ''http://a/x'' ''2024-03-10T11:00:00'']"
    by (simp add: read_cache_def read_cache_try_def cache_valid_def py_in_def sample_defs)
  then have m: "article ''A'' ''T0'' ''http://a/x'' ''2024-03-10T11:00:00''
     \<in> set (read_cache sample_fromisoformat sample_now {JStr ''A''} ?file)"
    by simp
  from read_cache_fresh_and_known [OF m] m r show ?thesis by blast
qed

text \<open>
  C7. When the cache file is absent, cannot be opened or does not hold JSON, \<^verbatim>\<open>read_cache\<close>
  returns the empty list; it raises no error, being a total function into lists.
\<close>

theorem read_cache_cold_start:
  "read_cache fromiso now names Absent = [] \<and>
   read_cache fromiso now names Unreadable = [] \<and>
   read_cache fromiso now names Malformed = []"
  by (simp add: read_cache_def)

text \<open>
  C9. After a successful \<^verbatim>\<open>write_cache\<close> of a list of articles of the data model,
  \<^verbatim>\<open>read_cache\<close> returns, unchanged and in order, exactly the written articles whose
  timestamp is within the freshness window and whose feed is a current feed name.
\<close>

theorem write_read_roundtrip:
  assumes "\<forall>a\<in>set articles. is_article fromiso a"
    and "write_cache isoformat t IoOk articles file = Some file'"
  shows "read_cache fromiso now names file' =
           filter (\<lambda>a. in_window fromiso now a \<and> feed_known names a) articles"
proof -
  from assms(2) have f: "file' = Loaded (JObj [(''timestamp'', JStr (isoformat t)),
                                                (''articles'', JArr articles)])"
    by (simp add: write_cache_def)
  have ok: "\<forall>a\<in>set articles. cache_valid fromiso now names a \<noteq> None"
    using assms(1) is_article_readable [of fromiso] by (auto simp: cache_valid_eq)
  have "filter (\<lambda>a. cache_valid fromiso now names a = Some True) articles =
        filter (\<lambda>a. in_window fromiso now a \<and> feed_known names a) articles"
    using assms(1) is_article_readable [of fromiso]
    by (intro filter_cong refl) (auto simp: cache_valid_eq)
  with read_cache_snapshot [OF ok] f show ?thesis by simp
qed

theorem write_read_roundtrip_witness:
  "is_article sample_fromisoformat (article ''A'' ''T0'' ''http://a/x'' ''2024-03-10T11:00:00'')
   \<and> is_article sample_fromisoformat (article ''B'' ''T2'' ''http://b/y'' ''2024-03-10T11:00:00'')
   \<and> is_article sample_fromisoformat (article ''A'' ''T3'' ''http://a/z'' ''2024-03-08T12:00:00'')
   \<and> write_cache sample_isoformat sample_now IoOk
        [article ''A'' ''T0'' ''http://a/x'' ''2024-03-10T11:00:00'',
         article ''B'' ''T2'' ''http://b/y'' ''2024-03-10T11:00:00'',
         article ''A'' ''T3'' ''http://a/z'' ''2024-03-08T12:00:00''] Absent
      = Some (Loaded (JObj [(''timestamp'', JStr ''2024-03-10T12:00:00''),
            (''articles'', JArr [
               article ''A'' ''T0'' ''http://a/x'' ''2024-03-10T11:00:00'',
               article ''B'' ''T2'' ''http://b/y'' ''2024-03-10T11:00:00'',
               article ''A'' ''T3'' ''http://a/z'' ''2024-03-08T12:00:00''])]))
   \<and> read_cache sample_fromisoformat sample_now {JStr ''A''}
         (Loaded (JObj [(''timestamp'', JStr ''2024-03-10T12:00:00''),
            (''articles'', JArr [
               article ''A'' ''T0'' ''http://a/x'' ''2024-03-10T11:00:00'',
               article ''B'' ''T2'' ''http://b/y'' ''2024-03-10T11:00:00'',
               article ''A'' ''T3'' ''http://a/z'' ''2024-03-08T12:00:00''])]))
       = [article ''A'' ''T0'' ''http://a/x'' ''2024-03-10T11:00:00'']"
proof -
  let ?arts = "[article ''A'' ''T0'' ''http://a/x'' ''2024-03-10T11:00:00'',
               article ''B'' ''T2'' ''http://b/y'' ''2024-03-10T11:00:00'',
               article ''A'' ''T3'' ''http://a/z'' ''2024-03-08T12:00:00'']"
  let ?file = "Loaded (JObj [(''timestamp'', JStr ''2024-03-10T12:00:00''),
                             (''articles'', JArr ?arts)])"
  have a: "\<forall>a\<in>set ?arts. is_article sample_fromisoformat a"
    by (simp add: is_article_def string_field_def timestamp_unreadable_def sample_defs)
  have w: "write_cache sample_isoformat sample_now IoOk ?arts Absent = Some ?file"
    by (simp add: write_cache_def sample_defs)
  have f: "filter (\<lambda>a. in_window sample_fromisoformat sample_now a \<and> feed_known {JStr ''A''} a) ?arts
             = [article ''A'' ''T0'' ''http://a/x'' ''2024-03-10T11:00:00'']"
    by (simp add: in_window_def feed_known_def sample_defs)
  from write_read_roundtrip [OF a w, of sample_now "{JStr ''A''}"] f
  have "read_cache sample_fromisoformat sample_now {JStr ''A''} ?file
          = [article ''A'' ''T0'' ''http://a/x'' ''2024-03-10T11:00:00'']"
    by simp
  with a w show ?thesis by simp
qed

text \<open>
  C10, as amended. \<^verbatim>\<open>read_cache\<close> returns the empty list for a snapshot whose article list
  holds a record with an unreadable timestamp, or a record within the freshness window
  without the key \<^verbatim>\<open>'feed'\<close>, whatever the other records are. The claim names the key
  \<^verbatim>\<open>'link'\<close> and every record without \<^verbatim>\<open>'feed'\<close> as well; the filter does not read the
  link, and it reads the feed only of a record within the window.
\<close>

theorem read_cache_all_or_nothing:
  assumes "map_of kvs ''articles'' = Some (JArr xs)"
    and "a \<in> set xs"
    and "timestamp_unreadable fromiso a \<or> (in_window fromiso now a \<and> subscript a ''feed'' = None)"
  shows "read_cache fromiso now names (Loaded (JObj kvs)) = []"
proof -
  from assms(3) have "cache_valid fromiso now names a = None"
    by (auto simp: cache_valid_eq feed_unreadable_def)
  with assms(2) have "filter_raising (cache_valid fromiso now names) xs = None"
    by (rule filter_raising_None)
  with assms(1) show ?thesis
    by (simp add: read_cache_def read_cache_try_def)
qed

theorem read_cache_all_or_nothing_witness:
  "map_of [(''timestamp'', JStr ''2024-03-10T11:00:00''),
           (''articles'', JArr [
              article ''A'' ''T0'' ''http://a/x'' ''2024-03-10T11:00:00'',
              JObj [(''feed'', JStr ''A''), (''title'', JStr ''T7''),
                    (''link'', JStr ''http://a/v'')]])] ''articles''
     = Some (JArr [
              article ''A'' ''T0'' ''http://a/x'' ''2024-03-10T11:00:00'',
              JObj [(''feed'', JStr ''A''), (''title'', JStr ''T7''),
                    (''link'', JStr ''http://a/v'')]])
   \<and> timestamp_unreadable sample_fromisoformat
        (JObj [(''feed'', JStr ''A''), (''title'', JStr ''T7''), (''link'', JStr ''http://a/v'')])
   \<and> read_cache sample_fromisoformat sample_now {JStr ''A''}
        (Loaded (JObj [(''timestamp'', JStr ''2024-03-10T11:00:00''),
           (''articles'', JArr [
              article ''A'' ''T0'' ''http://a/x'' ''2024-03-10T11:00:00'',
              JObj [(''feed'', JStr ''A''), (''title'', JStr ''T7''),
                    (''link'', JStr ''http://a/v'')]])])) = []"
proof -
  let ?bad = "JObj [(''feed'', JStr ''A''), (''title'', JStr ''T7''), (''link'', JStr ''http://a/v'')]"
  let ?xs = "[article ''A'' ''T0'' ''http://a/x'' ''2024-03-10T11:00:00'', ?bad]"
  let ?kvs = "[(''timestamp'', JStr ''2024-03-10T11:00:00''), (''articles'', JArr ?xs)]"
  have k: "map_of ?kvs ''articles'' = Some (JArr ?xs)" by simp
  have m: "?bad \<in> set ?xs" by simp
  have u: "timestamp_unreadable sample_fromisoformat ?bad"
    by (simp add: timestamp_unreadable_def)
  then have d: "timestamp_unreadable sample_fromisoformat ?bad
        \<or> (in_window sample_fromisoformat sample_now ?bad \<and> subscript ?bad ''feed'' = None)" ..
  from read_cache_all_or_nothing [OF k m d, of "{JStr ''A''}"] k u show ?thesis by blast
qed

text \<open>A snapshot with a record without \<^verbatim>\<open>'link'\<close> and a record of two days ago without
  \<^verbatim>\<open>'feed'\<close>: the result is not empty, the first of them is even returned.\<close>

theorem read_cache_tolerant_counterexample:
  "read_cache sample_fromisoformat sample_now {JStr ''A''}
     (Loaded (JObj [(''timestamp'', JStr ''2024-03-10T11:00:00''),
        (''articles'', JArr [
           article ''A'' ''T0'' ''http://a/x'' ''2024-03-10T11:00:00'',
           JObj [(''feed'', JStr ''A''), (''title'', JStr ''T5''),
                 (''timestamp'', JStr ''2024-03-10T11:00:00'')],
           JObj [(''title'', JStr ''T6''), (''link'', JStr ''http://a/w''),
                 (''timestamp'', JStr ''2024-03-08T12:00:00'')]])]))
   = [article ''A'' ''T0'' ''http://a/x'' ''2024-03-10T11:00:00'',
      JObj [(''feed'', JStr ''A''), (''title'', JStr ''T5''),
            (''timestamp'', JStr ''2024-03-10T11:00:00'')]]"
  by (simp add: read_cache_def read_cache_try_def cache_valid_def py_in_def sample_defs)

end
